theory Spec2Isabelle
  imports Complex_Main "HOL-Library.Sublist"
begin

section \<open>GPX geocoding pipeline: data model\<close>

text \<open>
  The program (main.py) reads a GPX track, flattens and sorts its points
  (\<open>extract_points\<close>), keeps one point per time interval (\<open>select_points\<close>),
  reverse-geocodes the kept points and removes repeated addresses
  (\<open>reverseGeocode\<close>), and writes the result as JSON
  (\<open>save_reversed_geocode_results_json\<close>).

  A point carries the three attributes the program reads. The timestamp is optional, as
  in the parsed track (\<open>None\<close> when the file gives none); a present timestamp is the
  number of microseconds since a fixed epoch, the resolution of Python's datetime.
  The coordinates are only handed on to the geocoder.
\<close>

record gpx_point =
  latitude :: real
  longitude :: real
  time :: "int option"

record gpx_segment =
  points :: "gpx_point list"

record gpx_track =
  segments :: "gpx_segment list"

record gpx =
  tracks :: "gpx_track list"

text \<open>
  The exceptions that occur: \<open>TypeError\<close> is raised by Python itself when a missing
  timestamp is compared or subtracted; the others come from the collaborators (file
  system, track parser, geocoding client).
\<close>

datatype py_error =
    TypeError
  | FileNotFoundError
  | PermissionError
  | OtherError string

section \<open>Point Extractor\<close>

text \<open>
  \<open>x.time < y.time\<close> on the sort keys: comparing \<open>None\<close> with anything raises
  \<open>TypeError\<close>.
\<close>

definition key_lt :: "int option \<Rightarrow> int option \<Rightarrow> py_error + bool" where
  "key_lt a b =
     (case a of
        None \<Rightarrow> Inl TypeError
      | Some x \<Rightarrow> (case b of None \<Rightarrow> Inl TypeError | Some y \<Rightarrow> Inr (x < y)))"

text \<open>
  Python's built-in \<open>sorted(xs, key=k)\<close> is a stable comparison sort that only uses
  the less-than comparison on the keys. It is modelled as a stable insertion sort: an
  element moves behind those with a strictly smaller key. A list of fewer than two
  elements is returned without any comparison; in a longer list every element is
  compared at least once, so a failing comparison surfaces as the exception.
\<close>

fun insort_lt :: "('a \<Rightarrow> int option) \<Rightarrow> 'a \<Rightarrow> 'a list \<Rightarrow> py_error + 'a list" where
  "insort_lt k x [] = Inr [x]"
| "insort_lt k x (y # ys) =
     (case key_lt (k y) (k x) of
        Inl e \<Rightarrow> Inl e
      | Inr True \<Rightarrow> (case insort_lt k x ys of Inl e \<Rightarrow> Inl e | Inr zs \<Rightarrow> Inr (y # zs))
      | Inr False \<Rightarrow> Inr (x # y # ys))"

fun py_sorted :: "('a \<Rightarrow> int option) \<Rightarrow> 'a list \<Rightarrow> py_error + 'a list" where
  "py_sorted k [] = Inr []"
| "py_sorted k (x # xs) =
     (case py_sorted k xs of Inl e \<Rightarrow> Inl e | Inr ys \<Rightarrow> insort_lt k x ys)"

text \<open>
  The two nested loops of \<open>extract_points\<close>: every segment of every track, in order,
  extends \<open>total_points\<close>.
\<close>

definition total_points :: "gpx \<Rightarrow> gpx_point list" where
  "total_points gpx_data = concat (map points (concat (map segments (tracks gpx_data))))"

definition extract_points :: "gpx \<Rightarrow> py_error + gpx_point list" where
  "extract_points gpx_data = py_sorted time (total_points gpx_data)"

section \<open>Interval Sampler\<close>

text \<open>
  \<open>a.time - b.time\<close> is a timedelta, here its length in microseconds; with a missing
  timestamp the subtraction raises \<open>TypeError\<close>.
\<close>

definition time_sub :: "int option \<Rightarrow> int option \<Rightarrow> py_error + int" where
  "time_sub a b =
     (case a of
        None \<Rightarrow> Inl TypeError
      | Some x \<Rightarrow> (case b of None \<Rightarrow> Inl TypeError | Some y \<Rightarrow> Inr (x - y)))"

text \<open>
  The \<open>.seconds\<close> attribute of a timedelta of \<open>d\<close> microseconds. Python normalises a
  timedelta to days, seconds (0 to 86399) and microseconds (0 to 999999); \<open>.seconds\<close>
  is the middle component only.
\<close>

definition td_seconds :: "int \<Rightarrow> int" where
  "td_seconds d = (d div 1000000) mod 86400"

text \<open>
  The \<open>for i in range(1, len(points))\<close> loop. \<open>prev\<close> is \<open>points[i-1]\<close>, the list
  holds \<open>points[i:]\<close>; the state is \<open>time_sec_passed\<close> and \<open>processing_points\<close>.
\<close>

fun select_loop ::
  "gpx_point \<Rightarrow> gpx_point list \<Rightarrow> int \<Rightarrow> int \<Rightarrow> gpx_point list
    \<Rightarrow> py_error + (gpx_point list \<times> int)" where
  "select_loop prev [] interval_minutes time_sec_passed processing_points =
     Inr (processing_points, time_sec_passed)"
| "select_loop prev (p # ps) interval_minutes time_sec_passed processing_points =
     (case time_sub (time p) (time prev) of
        Inl e \<Rightarrow> Inl e
      | Inr d \<Rightarrow>
          (if time_sec_passed + td_seconds d \<ge> interval_minutes * 60
           then select_loop p ps interval_minutes 0 (processing_points @ [p])
           else select_loop p ps interval_minutes (time_sec_passed + td_seconds d)
                  processing_points))"

definition select_points :: "gpx_point list \<Rightarrow> int \<Rightarrow> py_error + gpx_point list" where
  "select_points pts interval_minutes =
     (case pts of
        [] \<Rightarrow> Inr []
      | p0 # rest \<Rightarrow>
          (case select_loop p0 rest interval_minutes 0 [p0] of
             Inl e \<Rightarrow> Inl e
           | Inr (processing_points, _) \<Rightarrow>
               (if length processing_points > 0
                then (case time_sub (time (last pts)) (time (last processing_points)) of
                        Inl e \<Rightarrow> Inl e
                      | Inr d \<Rightarrow>
                          (if td_seconds d \<ge> interval_minutes * 60
                           then Inr (processing_points @ [last pts])
                           else Inr processing_points))
                else Inr processing_points)))"

section \<open>Geocode Deduplicator\<close>

text \<open>
  What the geocoding client returns for one coordinate: a list of candidates, each with
  its address components; a component has a long name and a list of type tags. The
  client itself (\<open>gmaps.reverse_geocode\<close> with its fixed language and result types)
  is a parameter of the model: a function from the coordinate pair to the candidates, or
  to the exception it raises.
\<close>

record address_component =
  long_name :: string
  types :: "string list"

record geocode_result =
  address_components :: "address_component list"

type_synonym gmaps_client = "real \<times> real \<Rightarrow> py_error + geocode_result list"

text \<open>
  \<open>newParsedAddr\<close> is a dictionary with five fixed keys whose values alone are
  updated, so it is a record of five strings; the key order of the dictionary literal
  reappears where the record is serialised (\<open>py_of_address\<close>).
\<close>

record address =
  country :: string
  administrative_area_level_1 :: string
  administrative_area_level_2 :: string
  locality :: string
  sublocality :: string

definition newParsedAddr :: address where
  "newParsedAddr =
     \<lparr>country = [], administrative_area_level_1 = [],
      administrative_area_level_2 = [], locality = [], sublocality = []\<rparr>"

text \<open>The if/elif chain over one component.\<close>

definition parse_component :: "address \<Rightarrow> address_component \<Rightarrow> address" where
  "parse_component a component =
     (if ''country'' \<in> set (types component)
        then a\<lparr>country := long_name component\<rparr>
      else if ''administrative_area_level_1'' \<in> set (types component)
        then a\<lparr>administrative_area_level_1 := long_name component\<rparr>
      else if ''administrative_area_level_2'' \<in> set (types component)
        then a\<lparr>administrative_area_level_2 := long_name component\<rparr>
      else if ''locality'' \<in> set (types component)
        then a\<lparr>locality := long_name component\<rparr>
      else if ''sublocality'' \<in> set (types component)
        then a\<lparr>sublocality := long_name component\<rparr>
      else a)"

definition parse_address :: "geocode_result \<Rightarrow> address" where
  "parse_address candidate = foldl parse_component newParsedAddr (address_components candidate)"

type_synonym address_key = "string \<times> string \<times> string \<times> string \<times> string"

definition address_tuple :: "address \<Rightarrow> address_key" where
  "address_tuple a =
     (country a, administrative_area_level_1 a, administrative_area_level_2 a,
      locality a, sublocality a)"

text \<open>
  Log lines are a level and the fixed part of the message; the values that the source
  formats into a message are left out.
\<close>

datatype log_level = INFO | WARNING | ERROR

type_synonym log_entry = "log_level \<times> string"

text \<open>
  The loop of \<open>reverseGeocode\<close> over the points, with its state \<open>parsed_points\<close>
  and \<open>seen_addresses\<close> and the lines logged so far. An exception of the client
  leaves the loop.
\<close>

fun geocode_loop ::
  "gmaps_client \<Rightarrow> gpx_point list \<Rightarrow> address list \<Rightarrow> address_key set \<Rightarrow> log_entry list
    \<Rightarrow> (py_error + address list) \<times> log_entry list" where
  "geocode_loop gmaps [] parsed_points seen_addresses lg = (Inr parsed_points, lg)"
| "geocode_loop gmaps (point # rest) parsed_points seen_addresses lg =
     (case gmaps (latitude point, longitude point) of
        Inl e \<Rightarrow> (Inl e, lg)
      | Inr [] \<Rightarrow>
          geocode_loop gmaps rest parsed_points seen_addresses
            (lg @ [(WARNING, ''No geocode result found for point'')])
      | Inr (candidate # _) \<Rightarrow>
          (if address_tuple (parse_address candidate) \<notin> seen_addresses
           then geocode_loop gmaps rest (parsed_points @ [parse_address candidate])
                  (insert (address_tuple (parse_address candidate)) seen_addresses) lg
           else geocode_loop gmaps rest parsed_points seen_addresses lg))"

text \<open>
  \<open>reverseGeocode\<close> returns the pair of the list and the flag
  \<open>len(parsed_points) == 0\<close>; on an exception it logs and raises again.
\<close>

definition reverseGeocode ::
  "gmaps_client \<Rightarrow> gpx_point list \<Rightarrow> (py_error + address list \<times> bool) \<times> log_entry list" where
  "reverseGeocode gmaps pts =
     (case geocode_loop gmaps pts [] {} [(INFO, ''Starting reverse geocoding...'')] of
        (Inl e, lg) \<Rightarrow> (Inl e, lg @ [(ERROR, ''Failed to reverse geocode points'')])
      | (Inr parsed_points, lg) \<Rightarrow> (Inr (parsed_points, length parsed_points = 0), lg))"

section \<open>Serialisation and the save step\<close>

text \<open>
  The Python values that reach \<open>json.dumps\<close>, and the JSON document it produces (as a
  tree; objects keep the order of their keys). \<open>json.dumps\<close> writes a list and a tuple
  alike as an array.
\<close>

datatype py_value =
    PyStr string
  | PyBool bool
  | PyList "py_value list"
  | PyTuple "py_value list"
  | PyDict "(string \<times> py_value) list"

datatype json =
    JString string
  | JBool bool
  | JArray "json list"
  | JObject "(string \<times> json) list"

fun json_dumps :: "py_value \<Rightarrow> json" where
  "json_dumps (PyStr s) = JString s"
| "json_dumps (PyBool b) = JBool b"
| "json_dumps (PyList xs) = JArray (map json_dumps xs)"
| "json_dumps (PyTuple xs) = JArray (map json_dumps xs)"
| "json_dumps (PyDict kvs) = JObject (map (\<lambda>(k, v). (k, json_dumps v)) kvs)"

definition py_of_address :: "address \<Rightarrow> py_value" where
  "py_of_address a =
     PyDict [(''country'', PyStr (country a)),
             (''administrative_area_level_1'', PyStr (administrative_area_level_1 a)),
             (''administrative_area_level_2'', PyStr (administrative_area_level_2 a)),
             (''locality'', PyStr (locality a)),
             (''sublocality'', PyStr (sublocality a))]"

definition py_of_parsed_points :: "address list \<Rightarrow> py_value" where
  "py_of_parsed_points parsed_points = PyList (map py_of_address parsed_points)"

text \<open>The value \<open>reverseGeocode\<close> returns: a tuple of the list and the flag.\<close>

definition py_of_result :: "address list \<times> bool \<Rightarrow> py_value" where
  "py_of_result r = PyTuple [py_of_parsed_points (fst r), PyBool (snd r)]"

text \<open>
  The file system is a parameter: what opening the output file gives, what writing the
  document to it gives, and what closing it (with the flush of the buffered text) gives;
  each succeeds or raises.
\<close>

record file_system =
  fs_open :: "py_error + unit"
  fs_write :: "json \<Rightarrow> py_error + unit"
  fs_close :: "py_error + unit"

text \<open>
  The save step. Inside the \<open>with\<close> block the document is written and the success
  line is logged; the file is closed when the block is left, after that line. An
  exception of the opening or of the writing is logged alone; an exception of the
  closing is logged after the success line. In every case the step returns normally.
  The third component is the document in the file when all three steps succeeded.
\<close>

definition save_reversed_geocode_results_json ::
  "file_system \<Rightarrow> py_value \<Rightarrow> (py_error + unit) \<times> log_entry list \<times> json option" where
  "save_reversed_geocode_results_json fs parsed_points =
     (case fs_open fs of
        Inl e \<Rightarrow> (Inr (), [(ERROR, ''Failed to save reversed geocode results'')], None)
      | Inr _ \<Rightarrow>
          (case fs_write fs (json_dumps parsed_points) of
             Inl e \<Rightarrow> (Inr (), [(ERROR, ''Failed to save reversed geocode results'')], None)
           | Inr _ \<Rightarrow>
               (case fs_close fs of
                  Inl e \<Rightarrow>
                    (Inr (),
                     [(INFO, ''Successfully saved reversed geocode results''),
                      (ERROR, ''Failed to save reversed geocode results'')],
                     None)
                | Inr _ \<Rightarrow>
                    (Inr (), [(INFO, ''Successfully saved reversed geocode results'')],
                     Some (json_dumps parsed_points)))))"

section \<open>Entry point\<close>

text \<open>
  \<open>load_gpx_file\<close> receives what opening and parsing the file gives; it logs by the
  kind of exception and raises again.
\<close>

definition load_gpx_file :: "py_error + gpx \<Rightarrow> (py_error + gpx) \<times> log_entry list" where
  "load_gpx_file opened =
     (case opened of
        Inr gpx_data \<Rightarrow> (Inr gpx_data, [])
      | Inl FileNotFoundError \<Rightarrow> (Inl FileNotFoundError, [(ERROR, ''File not found'')])
      | Inl PermissionError \<Rightarrow> (Inl PermissionError, [(ERROR, ''No permission to read file'')])
      | Inl e \<Rightarrow> (Inl e, [(ERROR, ''Failed to load GPX file'')]))"

definition point_interval_minutes :: int where
  "point_interval_minutes = 5"

text \<open>
  \<open>main\<close> returns nothing and lets no exception out; what it does is the log it writes
  and the document it leaves in the output file. The stages' own log lines on an
  exception (\<open>Failed to extract points\<close>, \<open>Failed to select points\<close>) and the
  warning of \<open>select_points\<close> on an empty list are written here, where the stage is
  called.
\<close>

definition main ::
  "py_error + gpx \<Rightarrow> gmaps_client \<Rightarrow> file_system \<Rightarrow> log_entry list \<times> json option" where
  "main opened gmaps fs =
     (case load_gpx_file opened of
        (Inl e, l0) \<Rightarrow> (l0 @ [(ERROR, ''Main function failed'')], None)
      | (Inr gpx_data, l0) \<Rightarrow>
     (case extract_points gpx_data of
        Inl e \<Rightarrow>
          (l0 @ [(ERROR, ''Failed to extract points''), (ERROR, ''Main function failed'')], None)
      | Inr sorted_points \<Rightarrow>
     (case select_points sorted_points point_interval_minutes of
        Inl e \<Rightarrow>
          (l0 @ [(INFO, ''Total Points''), (ERROR, ''Failed to select points''),
                 (ERROR, ''Main function failed'')], None)
      | Inr processing_points \<Rightarrow>
     (let l1 = l0 @ [(INFO, ''Total Points'')]
                 @ (if sorted_points = [] then [(WARNING, ''No points to select from'')] else [])
                 @ [(INFO, ''Total selected points''), (INFO, ''Processing Points'')]
      in
     (case reverseGeocode gmaps processing_points of
        (Inl e, l2) \<Rightarrow> (l1 @ l2 @ [(ERROR, ''Main function failed'')], None)
      | (Inr reversed_geocode_results, l2) \<Rightarrow>
     (case save_reversed_geocode_results_json fs (py_of_result reversed_geocode_results) of
        (Inl e, l3, written) \<Rightarrow> (l1 @ l2 @ l3 @ [(ERROR, ''Main function failed'')], written)
      | (Inr _, l3, written) \<Rightarrow>
          (l1 @ l2 @ l3 @ [(INFO, ''Reversed geocoding completed successfully.'')],
           written)))))))"

section \<open>Specification predicates\<close>

text \<open>Two points in timestamp order (both timestamps present).\<close>

definition time_le :: "gpx_point \<Rightarrow> gpx_point \<Rightarrow> bool" where
  "time_le a b =
     (case time a of
        None \<Rightarrow> False
      | Some x \<Rightarrow> (case time b of None \<Rightarrow> False | Some y \<Rightarrow> x \<le> y))"

text \<open>
  The elapsed time from \<open>a\<close> to \<open>b\<close> is at least the interval: \<open>interval_minutes * 60\<close>
  seconds, in microseconds.
\<close>

definition gap_ok :: "int \<Rightarrow> gpx_point \<Rightarrow> gpx_point \<Rightarrow> bool" where
  "gap_ok interval_minutes a b =
     (case time a of
        None \<Rightarrow> False
      | Some x \<Rightarrow>
          (case time b of
             None \<Rightarrow> False
           | Some y \<Rightarrow> interval_minutes * 60 * 1000000 \<le> y - x))"

text \<open>
  The address keys the geocoder yields along the points, one for every point with at
  least one candidate, in order (specification of the deduplicator's input).
\<close>

definition lookup_keys :: "gmaps_client \<Rightarrow> gpx_point list \<Rightarrow> address_key list" where
  "lookup_keys gmaps pts =
     concat (map (\<lambda>point.
       (case gmaps (latitude point, longitude point) of
          Inr (candidate # _) \<Rightarrow> [address_tuple (parse_address candidate)]
        | _ \<Rightarrow> [])) pts)"

text \<open>
  Keeping the first occurrence of every element, in order: an element stays exactly when
  it does not occur earlier in the list.
\<close>

definition first_occurrences :: "'a list \<Rightarrow> 'a list" where
  "first_occurrences xs = rev (remdups (rev xs))"

text \<open>
  Writing the output file raises: the opening, the writing of the document or the
  closing does.
\<close>

definition output_write_raises :: "file_system \<Rightarrow> json \<Rightarrow> bool" where
  "output_write_raises fs doc = (isl (fs_open fs) \<or> isl (fs_write fs doc) \<or> isl (fs_close fs))"

section \<open>A concrete run\<close>

text \<open>
  A small track for the concrete statements below: two segments, points at 400 s, 0 s
  and 100 s. The geocoder of the example knows no address at latitude 0 and gives the
  same candidate everywhere else.
\<close>

definition example_gpx :: gpx where
  "example_gpx =
     \<lparr>tracks =
        [\<lparr>segments =
            [\<lparr>points = [\<lparr>latitude = 2, longitude = 2, time = Some 400000000\<rparr>,
                       \<lparr>latitude = 1, longitude = 1, time = Some 0\<rparr>]\<rparr>,
             \<lparr>points = [\<lparr>latitude = 0, longitude = 0, time = Some 100000000\<rparr>]\<rparr>]\<rparr>]\<rparr>"

definition example_candidate :: geocode_result where
  "example_candidate =
     \<lparr>address_components =
        [\<lparr>long_name = ''Shibuya'', types = [''locality'', ''political'']\<rparr>,
         \<lparr>long_name = ''Tokyo'', types = [''administrative_area_level_1'', ''political'']\<rparr>,
         \<lparr>long_name = ''Japan'', types = [''country'', ''political'']\<rparr>]\<rparr>"

definition example_address :: address where
  "example_address =
     \<lparr>country = ''Japan'', administrative_area_level_1 = ''Tokyo'',
      administrative_area_level_2 = [], locality = ''Shibuya'', sublocality = []\<rparr>"

definition example_gmaps :: gmaps_client where
  "example_gmaps = (\<lambda>(lat, lng). if lat = 0 then Inr [] else Inr [example_candidate])"

text \<open>
  Two file systems: one on which everything succeeds, and a full disk, on which the
  buffered text is accepted and the flush at the closing fails.
\<close>

definition example_fs :: file_system where
  "example_fs = \<lparr>fs_open = Inr (), fs_write = (\<lambda>doc. Inr ()), fs_close = Inr ()\<rparr>"

definition full_disk_fs :: file_system where
  "full_disk_fs =
     \<lparr>fs_open = Inr (), fs_write = (\<lambda>doc. Inr ()), fs_close = Inl (OtherError ''No space left on device'')\<rparr>"

section \<open>Interval Sampler: properties\<close>

subsection \<open>The seconds field\<close>

lemma td_seconds_nonneg: "0 \<le> td_seconds d"
  by (simp add: td_seconds_def)

lemma td_seconds_le: "0 \<le> d \<Longrightarrow> td_seconds d * 1000000 \<le> d"
proof -
  assume d: "0 \<le> d"
  have "(d div 1000000) mod 86400 \<le> d div 1000000"
    using d by (simp add: zmod_le_nonneg_dividend pos_imp_zdiv_nonneg_iff)
  moreover have "(d div 1000000) * 1000000 \<le> d"
    by simp
  ultimately show ?thesis
    unfolding td_seconds_def by linarith
qed

lemma td_seconds_zero: "td_seconds 0 = 0"
  by (simp add: td_seconds_def)

subsection \<open>The scan\<close>

text \<open>With every timestamp present the scan raises nothing.\<close>

lemma select_loop_total:
  "time prev \<noteq> None \<Longrightarrow> \<forall>p\<in>set ps. time p \<noteq> None \<Longrightarrow>
   \<exists>r. select_loop prev ps i passed acc = Inr r"
  by (induction ps arbitrary: prev passed acc) (auto simp: time_sub_def)

text \<open>
  The scan only appends, it appends a subsequence of the points it visits, and either it
  leaves the last visited point out or that point is the last one it appended.
\<close>

lemma select_loop_extends:
  "select_loop prev ps i passed acc = Inr (acc', q) \<Longrightarrow>
   \<exists>zs. acc' = acc @ zs \<and> subseq zs ps \<and>
        (ps \<noteq> [] \<longrightarrow> subseq zs (butlast ps) \<or> (zs \<noteq> [] \<and> last zs = last ps))"
proof (induction ps arbitrary: prev passed acc)
  case Nil
  then show ?case by simp
next
  case (Cons p ps)
  from Cons.prems obtain d where d: "time_sub (time p) (time prev) = Inr d"
    by (cases "time_sub (time p) (time prev)") auto
  show ?case
  proof (cases "passed + td_seconds d \<ge> i * 60")
    case True
    with Cons.prems d have "select_loop p ps i 0 (acc @ [p]) = Inr (acc', q)" by simp
    from Cons.IH[OF this] obtain zs where zs: "acc' = (acc @ [p]) @ zs" "subseq zs ps"
      "ps \<noteq> [] \<longrightarrow> subseq zs (butlast ps) \<or> (zs \<noteq> [] \<and> last zs = last ps)" by blast
    have "ps = [] \<Longrightarrow> zs = []" using zs(2) by simp
    with zs show ?thesis
      by (intro exI[of _ "p # zs"]) auto
  next
    case False
    with Cons.prems d have "select_loop p ps i (passed + td_seconds d) acc = Inr (acc', q)" by simp
    from Cons.IH[OF this] obtain zs where zs: "acc' = acc @ zs" "subseq zs ps"
      "ps \<noteq> [] \<longrightarrow> subseq zs (butlast ps) \<or> (zs \<noteq> [] \<and> last zs = last ps)" by blast
    have "ps = [] \<Longrightarrow> zs = []" using zs(2) by simp
    with zs show ?thesis
      by (intro exI[of _ "zs"]) auto
  qed
qed


text \<open>
  The invariant of the scan on a sorted track: the accumulated seconds never exceed the
  time elapsed since the last retained point, so a point is retained only when at least
  the interval has elapsed.
\<close>

lemma select_loop_spaced:
  assumes "select_loop prev ps i passed acc = Inr (acc', q)"
    and "sorted_wrt time_le (prev # ps)"
    and "acc \<noteq> []" and "time (last acc) = Some tr" and "time prev = Some tp"
    and "0 \<le> passed" and "passed * 1000000 \<le> tp - tr"
    and "successively (gap_ok i) acc"
  shows "successively (gap_ok i) acc' \<and> acc' \<noteq> [] \<and>
         (\<exists>tl tr'. time (last (prev # ps)) = Some tl \<and> time (last acc') = Some tr' \<and> tr' \<le> tl)"
  using assms
proof (induction ps arbitrary: prev passed acc tr tp)
  case Nil
  then show ?case by auto
next
  case (Cons p ps)
  from Cons.prems(2) have le: "time_le prev p" and srt: "sorted_wrt time_le (p # ps)"
    by auto
  from le Cons.prems(5) obtain tb where tb: "time p = Some tb" "tp \<le> tb"
    by (auto simp: time_le_def split: option.splits)
  have d: "time_sub (time p) (time prev) = Inr (tb - tp)"
    using tb Cons.prems(5) by (simp add: time_sub_def)
  let ?s = "td_seconds (tb - tp)"
  have s0: "0 \<le> ?s" by (rule td_seconds_nonneg)
  have s1: "?s * 1000000 \<le> tb - tp" using tb(2) by (intro td_seconds_le) simp
  have acc_le: "(passed + ?s) * 1000000 \<le> tb - tr"
    using s1 Cons.prems(7) by (simp add: algebra_simps)
  show ?case
  proof (cases "passed + ?s \<ge> i * 60")
    case True
    with Cons.prems(1) d have run: "select_loop p ps i 0 (acc @ [p]) = Inr (acc', q)" by simp
    from True have "i * 60 * 1000000 \<le> (passed + ?s) * 1000000" by simp
    with acc_le have "i * 60 * 1000000 \<le> tb - tr" by (rule order_trans[rotated])
    then have "gap_ok i (last acc) p"
      using Cons.prems(4) tb(1) by (simp add: gap_ok_def)
    then have sp: "successively (gap_ok i) (acc @ [p])"
      using Cons.prems(8) Cons.prems(3) by (simp add: successively_append_iff)
    have "successively (gap_ok i) acc' \<and> acc' \<noteq> [] \<and>
         (\<exists>tl tr'. time (last (p # ps)) = Some tl \<and> time (last acc') = Some tr' \<and> tr' \<le> tl)"
      using run srt tb(1) sp
      by (intro Cons.IH[where prev=p and passed=0 and acc="acc @ [p]" and tr=tb and tp=tb])
         simp_all
    then show ?thesis by simp
  next
    case False
    with Cons.prems(1) d have run: "select_loop p ps i (passed + ?s) acc = Inr (acc', q)" by simp
    have "successively (gap_ok i) acc' \<and> acc' \<noteq> [] \<and>
         (\<exists>tl tr'. time (last (p # ps)) = Some tl \<and> time (last acc') = Some tr' \<and> tr' \<le> tl)"
      using run srt Cons.prems(3,4,6,8) tb(1) s0 acc_le
      by (intro Cons.IH[where prev=p and passed="passed + ?s" and acc=acc and tr=tr and tp=tb])
         simp_all
    then show ?thesis by simp
  qed
qed

lemma td_seconds_split:
  assumes "0 \<le> u" and "u < 1000000"
  shows "td_seconds (e * 1000000 + u) = e mod 86400"
proof -
  have "(e * 1000000 + u) div 1000000 = e"
    using assms by (simp add: div_pos_pos_trivial)
  then show ?thesis by (simp add: td_seconds_def)
qed

subsection \<open>The whole sampler\<close>

lemma select_points_subseq_pos:
  assumes "0 < i" and "select_points pts i = Inr ys"
  shows "subseq ys pts"
proof (cases pts)
  case Nil
  with assms show ?thesis by (simp add: select_points_def)
next
  case (Cons p0 rest)
  from assms(2) Cons obtain acc' q where run: "select_loop p0 rest i 0 [p0] = Inr (acc', q)"
    by (cases "select_loop p0 rest i 0 [p0]") (auto simp: select_points_def)
  from select_loop_extends[OF run] obtain zs where zs: "acc' = [p0] @ zs" "subseq zs rest"
    "rest \<noteq> [] \<longrightarrow> subseq zs (butlast rest) \<or> (zs \<noteq> [] \<and> last zs = last rest)" by blast
  from assms(2) Cons run zs(1) obtain d where
    d: "time_sub (time (last pts)) (time (last acc')) = Inr d"
    by (cases "time_sub (time (last pts)) (time (last acc'))") (auto simp: select_points_def)
  show ?thesis
  proof (cases "td_seconds d \<ge> i * 60")
    case False
    with assms(2) Cons run zs(1) d have "ys = acc'" by (simp add: select_points_def)
    with zs Cons show ?thesis by simp
  next
    case True
    with assms(2) Cons run zs(1) d have ys: "ys = acc' @ [last pts]"
      by (simp add: select_points_def)
    have neq: "last acc' \<noteq> last pts"
    proof
      assume "last acc' = last pts"
      with d have "d = 0" by (auto simp: time_sub_def split: option.splits)
      with True assms(1) show False by (simp add: td_seconds_def)
    qed
    have rest: "rest \<noteq> []"
    proof
      assume "rest = []"
      with zs(2) have "zs = []" by simp
      with zs(1) Cons \<open>rest = []\<close> neq show False by simp
    qed
    have "\<not> (zs \<noteq> [] \<and> last zs = last rest)"
      using neq zs(1) Cons rest by auto
    with zs(3) rest have "subseq zs (butlast rest)" by blast
    then have "subseq (zs @ [last rest]) (butlast rest @ [last rest])"
      by (simp only: subseq_append)
    with rest have "subseq (zs @ [last rest]) rest" by simp
    with ys zs(1) Cons rest show ?thesis by simp
  qed
qed

lemma subseq_distinct_local: "subseq ys xs \<Longrightarrow> distinct xs \<Longrightarrow> distinct ys"
  by (induction rule: list_emb.induct) (auto dest: list_emb_set)

lemma select_points_returns:
  assumes "\<forall>p\<in>set pts. time p \<noteq> None"
  shows "\<exists>ys. select_points pts i = Inr ys"
proof (cases pts)
  case Nil
  then show ?thesis by (simp add: select_points_def)
next
  case (Cons p0 rest)
  with assms obtain r where "select_loop p0 rest i 0 [p0] = Inr r"
    using select_loop_total[of p0 rest i 0 "[p0]"] by auto
  then obtain acc' q where run: "select_loop p0 rest i 0 [p0] = Inr (acc', q)"
    by (cases r) auto
  from select_loop_extends[OF run] obtain zs where zs: "acc' = [p0] @ zs" "subseq zs rest"
    by blast
  then have "set acc' \<subseteq> set pts"
    using Cons by (auto dest: list_emb_set)
  moreover have "last acc' \<in> set acc'" using zs(1) by simp
  ultimately have "time (last acc') \<noteq> None" using assms by blast
  moreover have "time (last pts) \<noteq> None" using assms Cons by simp
  ultimately obtain d where "time_sub (time (last pts)) (time (last acc')) = Inr d"
    by (auto simp: time_sub_def)
  with Cons run zs(1) show ?thesis
    by (simp add: select_points_def)
qed

lemma select_points_hd:
  assumes "select_points pts i = Inr ys" and "pts \<noteq> []"
  shows "ys \<noteq> [] \<and> hd ys = hd pts"
proof -
  from assms(2) obtain p0 rest where Cons: "pts = p0 # rest" by (cases pts) auto
  from assms(1) Cons obtain acc' q where run: "select_loop p0 rest i 0 [p0] = Inr (acc', q)"
    by (cases "select_loop p0 rest i 0 [p0]") (auto simp: select_points_def)
  from select_loop_extends[OF run] obtain zs where zs: "acc' = [p0] @ zs" by blast
  from assms(1) Cons run zs have "ys = acc' \<or> ys = acc' @ [last pts]"
    by (auto simp: select_points_def split: sum.splits if_splits)
  with zs Cons show ?thesis by auto
qed

lemma distinct_count_le_1: "distinct ys \<Longrightarrow> count_list ys x \<le> 1"
  by (induction ys) (auto simp: count_list_0_iff)

subsection \<open>Claims on the Interval Sampler\<close>

text \<open>
  Claim C2, as stated: for some input sequence and some positive interval the post-scan
  step appends the true last point although the main scan has already appended it, so
  the result contains the last input point twice. The points of a track are distinct
  objects, so the inputs are the lists without repetition. The statement is false: no
  such input and positive interval exist.
\<close>

theorem duplicate_last_unreachable:
  "\<not> (\<exists>pts i ys. 0 < i \<and> pts \<noteq> [] \<and> distinct pts \<and> select_points pts i = Inr ys \<and>
         2 \<le> count_list ys (last pts))"
proof
  assume "\<exists>pts i ys. 0 < i \<and> pts \<noteq> [] \<and> distinct pts \<and> select_points pts i = Inr ys \<and>
         2 \<le> count_list ys (last pts)"
  then obtain pts i ys where h: "0 < i" "distinct pts" "select_points pts i = Inr ys"
    "2 \<le> count_list ys (last pts)" by blast
  from select_points_subseq_pos[OF h(1) h(3)] have "subseq ys pts" .
  then have "distinct ys" using h(2) by (rule subseq_distinct_local)
  then have "count_list ys (last pts) \<le> 1" by (rule distinct_count_le_1)
  with h(4) show False by simp
qed

text \<open>
  Claim C2, amended: for every positive interval the sampled sequence is a subsequence
  of the input, so the last point is never appended twice; the double append is reached
  with a non-positive interval, for instance interval 0 on the two points at 0 s and
  100 s, which returns the second point twice.
\<close>

theorem duplicate_last_only_nonpositive:
  "(0 < i \<and> select_points pts i = Inr ys \<longrightarrow> subseq ys pts) \<and>
   select_points
     [\<lparr>latitude = la0, longitude = lo0, time = Some 0\<rparr>,
      \<lparr>latitude = la1, longitude = lo1, time = Some 100000000\<rparr>] 0 =
   Inr [\<lparr>latitude = la0, longitude = lo0, time = Some 0\<rparr>,
        \<lparr>latitude = la1, longitude = lo1, time = Some 100000000\<rparr>,
        \<lparr>latitude = la1, longitude = lo1, time = Some 100000000\<rparr>]"
  using select_points_subseq_pos[of i pts ys]
  by (simp add: select_points_def time_sub_def td_seconds_def)

theorem duplicate_last_only_nonpositive_witness:
  "(0::int) < 5 \<and>
   select_points
     [\<lparr>latitude = 0, longitude = 0, time = Some 0\<rparr>,
      \<lparr>latitude = 1, longitude = 1, time = Some 100000000\<rparr>,
      \<lparr>latitude = 2, longitude = 2, time = Some 400000000\<rparr>] 5 =
   Inr [\<lparr>latitude = 0, longitude = 0, time = Some 0\<rparr>,
        \<lparr>latitude = 2, longitude = 2, time = Some 400000000\<rparr>] \<and>
   subseq [\<lparr>latitude = 0, longitude = 0, time = Some 0\<rparr>,
           \<lparr>latitude = 2, longitude = 2, time = Some 400000000\<rparr>]
     [\<lparr>latitude = 0, longitude = 0, time = Some 0\<rparr>,
      \<lparr>latitude = 1, longitude = 1, time = Some 100000000\<rparr>,
      \<lparr>latitude = 2, longitude = 2, time = Some 400000000\<rparr>]"
proof -
  have run: "select_points
     [\<lparr>latitude = 0, longitude = 0, time = Some 0\<rparr>,
      \<lparr>latitude = 1, longitude = 1, time = Some 100000000\<rparr>,
      \<lparr>latitude = 2, longitude = 2, time = Some 400000000\<rparr>] 5 =
   Inr [\<lparr>latitude = 0, longitude = 0, time = Some 0\<rparr>,
        \<lparr>latitude = 2, longitude = 2, time = Some 400000000\<rparr>]"
    by (simp add: select_points_def time_sub_def td_seconds_def)
  with duplicate_last_only_nonpositive[of 5 _ _ 0 0 0 0] show ?thesis
    by simp
qed

text \<open>
  Claim C3: on the three points at 0 s, 100 s and 400 s with an interval of 5 minutes
  the sampler returns exactly the points at 0 s and 400 s, the last one once.
\<close>

theorem select_points_scenario:
  "select_points
     [\<lparr>latitude = la0, longitude = lo0, time = Some 0\<rparr>,
      \<lparr>latitude = la1, longitude = lo1, time = Some 100000000\<rparr>,
      \<lparr>latitude = la2, longitude = lo2, time = Some 400000000\<rparr>] 5 =
   Inr [\<lparr>latitude = la0, longitude = lo0, time = Some 0\<rparr>,
        \<lparr>latitude = la2, longitude = lo2, time = Some 400000000\<rparr>]"
  by (simp add: select_points_def time_sub_def td_seconds_def)

text \<open>
  Claim C4: on every input sorted by timestamp and for every interval the sampler
  returns, and any two consecutive points of its result are at least
  \<open>interval_minutes * 60\<close> seconds apart. This holds for the forced final point as
  well, so the claim's exception for it is not needed.
\<close>

theorem select_points_spacing:
  assumes "\<forall>p\<in>set pts. time p \<noteq> None" and "sorted_wrt time_le pts"
  shows "\<exists>ys. select_points pts i = Inr ys \<and> successively (gap_ok i) ys"
proof (cases pts)
  case Nil
  then show ?thesis by (simp add: select_points_def)
next
  case (Cons p0 rest)
  from assms(1) Cons obtain t0 where t0: "time p0 = Some t0" by auto
  from assms(1) Cons have "\<forall>p\<in>set rest. time p \<noteq> None" by simp
  with t0 obtain r where "select_loop p0 rest i 0 [p0] = Inr r"
    using select_loop_total[of p0 rest i 0 "[p0]"] by auto
  then obtain acc' q where run: "select_loop p0 rest i 0 [p0] = Inr (acc', q)"
    by (cases r) auto
  have inv: "successively (gap_ok i) acc' \<and> acc' \<noteq> [] \<and>
         (\<exists>tl tr'. time (last (p0 # rest)) = Some tl \<and> time (last acc') = Some tr' \<and> tr' \<le> tl)"
    using assms(2) Cons t0 run
    by (intro select_loop_spaced[where passed=0 and acc="[p0]" and tr=t0 and tp=t0 and q=q])
       simp_all
  then obtain tl tr' where tt: "time (last pts) = Some tl" "time (last acc') = Some tr'" "tr' \<le> tl"
    using Cons by auto
  have d: "time_sub (time (last pts)) (time (last acc')) = Inr (tl - tr')"
    using tt by (simp add: time_sub_def)
  show ?thesis
  proof (cases "td_seconds (tl - tr') \<ge> i * 60")
    case True
    have "td_seconds (tl - tr') * 1000000 \<le> tl - tr'"
      using tt(3) by (intro td_seconds_le) simp
    moreover from True have "i * 60 * 1000000 \<le> td_seconds (tl - tr') * 1000000" by simp
    ultimately have "i * 60 * 1000000 \<le> tl - tr'" by (rule order_trans[rotated])
    then have "gap_ok i (last acc') (last pts)"
      using tt by (simp add: gap_ok_def)
    then have "successively (gap_ok i) (acc' @ [last pts])"
      using inv by (simp add: successively_append_iff)
    moreover have "select_points pts i = Inr (acc' @ [last pts])"
      using Cons run inv d True by (simp add: select_points_def)
    ultimately show ?thesis by simp
  next
    case False
    have "select_points pts i = Inr acc'"
      using Cons run inv d False by (simp add: select_points_def)
    then show ?thesis using inv by simp
  qed
qed

text \<open>
  Claim C4, at a concrete input: the three points at 0 s, 100 s and 400 s, interval 5.
\<close>

theorem select_points_spacing_witness:
  "sorted_wrt time_le [\<lparr>latitude = 0, longitude = 0, time = Some 0\<rparr>,
              \<lparr>latitude = 1, longitude = 1, time = Some 100000000\<rparr>,
              \<lparr>latitude = 2, longitude = 2, time = Some 400000000\<rparr>] \<and>
   (\<exists>ys. select_points [\<lparr>latitude = 0, longitude = 0, time = Some 0\<rparr>,
              \<lparr>latitude = 1, longitude = 1, time = Some 100000000\<rparr>,
              \<lparr>latitude = 2, longitude = 2, time = Some 400000000\<rparr>] 5 = Inr ys \<and>
         successively (gap_ok 5) ys)"
proof -
  have a: "\<forall>p\<in>set [\<lparr>latitude = 0, longitude = 0, time = Some 0\<rparr>,
              \<lparr>latitude = 1, longitude = 1, time = Some 100000000\<rparr>,
              \<lparr>latitude = 2, longitude = 2, time = Some 400000000\<rparr>]. time p \<noteq> None"
    by simp
  have b: "sorted_wrt time_le [\<lparr>latitude = 0, longitude = 0, time = Some 0\<rparr>,
              \<lparr>latitude = 1, longitude = 1, time = Some 100000000\<rparr>,
              \<lparr>latitude = 2, longitude = 2, time = Some 400000000\<rparr>]"
    by (simp add: time_le_def)
  from b select_points_spacing[OF a b, of 5] show ?thesis by blast
qed

text \<open>
  Claim C5: on the empty sequence the sampler returns the empty sequence; on a
  non-empty sequence (of points with timestamps, as the data model has them) it returns
  a non-empty sequence whose first element is the first input point, whatever the
  interval; and whenever it returns on a non-empty sequence, the same holds.
\<close>

theorem select_points_first_point:
  "select_points [] i = Inr [] \<and>
   (pts \<noteq> [] \<and> (\<forall>p\<in>set pts. time p \<noteq> None) \<longrightarrow>
      (\<exists>ys. select_points pts i = Inr ys \<and> ys \<noteq> [] \<and> hd ys = hd pts)) \<and>
   (pts \<noteq> [] \<and> select_points pts i = Inr zs \<longrightarrow> zs \<noteq> [] \<and> hd zs = hd pts)"
  using select_points_returns[of pts i] select_points_hd[of pts i]
  by (auto simp: select_points_def)

theorem select_points_first_point_witness:
  "[\<lparr>latitude = 0, longitude = 0, time = Some 0\<rparr>,
    \<lparr>latitude = 1, longitude = 1, time = Some 400000000\<rparr>] \<noteq> [] \<and>
   (\<exists>ys. select_points [\<lparr>latitude = 0, longitude = 0, time = Some 0\<rparr>,
              \<lparr>latitude = 1, longitude = 1, time = Some 400000000\<rparr>] 5 = Inr ys \<and>
         ys \<noteq> [] \<and> hd ys = \<lparr>latitude = 0, longitude = 0, time = Some 0\<rparr>)"
  using select_points_first_point[of 5 "[\<lparr>latitude = 0, longitude = 0, time = Some 0\<rparr>,
    \<lparr>latitude = 1, longitude = 1, time = Some 400000000\<rparr>]"]
  by simp

text \<open>
  Claim C10: the gap added at a step is the seconds field of the time difference. If the
  difference is \<open>e\<close> whole seconds and \<open>u\<close> microseconds, the scan adds
  \<open>e mod 86400\<close>: whole days are discarded (and a difference of exactly 24 hours adds
  0). The final check uses the same field, so of two points the second is kept, for a
  positive interval, exactly when \<open>e mod 86400\<close> reaches the interval.
\<close>

theorem seconds_field_discards_days:
  assumes "time prev = Some a" and "time p = Some (a + e * 1000000 + u)"
    and "0 \<le> u" and "u < 1000000"
  shows "select_loop prev (p # ps) i passed acc =
           (if i * 60 \<le> passed + e mod 86400
            then select_loop p ps i 0 (acc @ [p])
            else select_loop p ps i (passed + e mod 86400) acc) \<and>
         (0 < i \<longrightarrow>
            select_points [prev, p] i = Inr (if i * 60 \<le> e mod 86400 then [prev, p] else [prev]))"
proof -
  have d: "time_sub (time p) (time prev) = Inr (e * 1000000 + u)"
    using assms(1,2) by (simp add: time_sub_def)
  have s: "td_seconds (e * 1000000 + u) = e mod 86400"
    using assms(3,4) by (rule td_seconds_split)
  have step: "select_loop prev (p # ps) i passed acc =
           (if i * 60 \<le> passed + e mod 86400
            then select_loop p ps i 0 (acc @ [p])
            else select_loop p ps i (passed + e mod 86400) acc)" for ps passed acc
    using d s by simp
  have z: "time_sub (time p) (time p) = Inr 0"
    using assms(2) by (simp add: time_sub_def)
  have "select_points [prev, p] i = Inr (if i * 60 \<le> e mod 86400 then [prev, p] else [prev])"
    if "0 < i"
    using that d s z by (simp add: select_points_def step td_seconds_zero del: select_loop.simps(2))
  with step show ?thesis by blast
qed

theorem seconds_field_discards_days_witness:
  "time \<lparr>latitude = 0, longitude = 0, time = Some 0\<rparr> = Some 0 \<and>
   time \<lparr>latitude = 1, longitude = 1, time = Some 86400000000\<rparr> = Some (0 + 86400 * 1000000 + 0) \<and>
   (0::int) \<le> 0 \<and> (0::int) < 1000000 \<and> (0::int) < 5 \<and>
   select_points [\<lparr>latitude = 0, longitude = 0, time = Some 0\<rparr>,
                  \<lparr>latitude = 1, longitude = 1, time = Some 86400000000\<rparr>] 5 =
     Inr [\<lparr>latitude = 0, longitude = 0, time = Some 0\<rparr>]"
  using seconds_field_discards_days[of "\<lparr>latitude = 0, longitude = 0, time = Some 0\<rparr>" 0
      "\<lparr>latitude = 1, longitude = 1, time = Some 86400000000\<rparr>" 86400 0 "[]" 5 0 "[]"]
  by simp

section \<open>Point Extractor: properties\<close>

subsection \<open>The sort\<close>

text \<open>
  One insertion step that returns: both keys are present, and the element either moves
  behind a strictly smaller key or stays in front.
\<close>

lemma insort_lt_Cons_cases:
  assumes "insort_lt k x (y # ys) = Inr zs"
  obtains (move) u v zs' where "k y = Some u" "k x = Some v" "u < v"
      "insort_lt k x ys = Inr zs'" "zs = y # zs'"
    | (stay) u v where "k y = Some u" "k x = Some v" "\<not> u < v" "zs = x # y # ys"
proof -
  from assms obtain u v where uv: "k y = Some u" "k x = Some v"
    by (cases "k y"; cases "k x") (auto simp: key_lt_def)
  show thesis
  proof (cases "u < v")
    case True
    with assms uv obtain zs' where "insort_lt k x ys = Inr zs'" "zs = y # zs'"
      by (cases "insort_lt k x ys") (auto simp: key_lt_def)
    with uv True show thesis by (rule move)
  next
    case False
    with assms uv have "zs = x # y # ys" by (auto simp: key_lt_def)
    with uv False show thesis by (rule stay)
  qed
qed

text \<open>
  With every key present the model is the library's stable insertion sort
  \<open>sort_key\<close>.
\<close>

lemma insort_lt_insort_key:
  "k x \<noteq> None \<Longrightarrow> \<forall>y\<in>set ys. k y \<noteq> None \<Longrightarrow>
   insort_lt k x ys = Inr (insort_key (the \<circ> k) x ys)"
  by (induction ys) (auto simp: key_lt_def)

lemma py_sorted_sort_key:
  "\<forall>x\<in>set xs. k x \<noteq> None \<Longrightarrow> py_sorted k xs = Inr (sort_key (the \<circ> k) xs)"
  by (induction xs) (simp_all add: insort_lt_insort_key)

lemma length_insort_lt: "insort_lt k x ys = Inr zs \<Longrightarrow> length zs = Suc (length ys)"
proof (induction ys arbitrary: zs)
  case Nil
  then show ?case by auto
next
  case (Cons y ys)
  from Cons.prems show ?case
    by (cases rule: insort_lt_Cons_cases) (auto dest: Cons.IH)
qed

lemma py_sorted_Cons:
  assumes "py_sorted k (x # xs) = Inr ys"
  obtains ys' where "py_sorted k xs = Inr ys'" "insort_lt k x ys' = Inr ys"
  using assms by (cases "py_sorted k xs") auto

lemma length_py_sorted: "py_sorted k xs = Inr ys \<Longrightarrow> length ys = length xs"
proof (induction xs arbitrary: ys)
  case Nil
  then show ?case by simp
next
  case (Cons x xs)
  from Cons.prems obtain ys' where "py_sorted k xs = Inr ys'" "insort_lt k x ys' = Inr ys"
    by (rule py_sorted_Cons)
  then show ?case using Cons.IH length_insort_lt by fastforce
qed

lemma insort_lt_compares:
  "insort_lt k x (y # ys) = Inr zs \<Longrightarrow> k x \<noteq> None \<and> k y \<noteq> None"
  by (erule insort_lt_Cons_cases) auto

text \<open>
  In a list of two or more elements every key takes part in a comparison, so a result
  means that every key is present.
\<close>

lemma py_sorted_keys_present:
  "py_sorted k xs = Inr ys \<Longrightarrow> 2 \<le> length xs \<Longrightarrow> \<forall>x\<in>set xs. k x \<noteq> None"
proof (induction xs arbitrary: ys)
  case Nil
  then show ?case by simp
next
  case (Cons x xs)
  from Cons.prems(1) obtain ys' where ys': "py_sorted k xs = Inr ys'" "insort_lt k x ys' = Inr ys"
    by (rule py_sorted_Cons)
  from Cons.prems(2) have "xs \<noteq> []" by auto
  with length_py_sorted[OF ys'(1)] obtain y rest where yr: "ys' = y # rest"
    by (cases ys') auto
  from insort_lt_compares[of k x y rest ys] ys'(2) yr
  have kx: "k x \<noteq> None" and ky: "k y \<noteq> None" by auto
  show ?case
  proof (cases "2 \<le> length xs")
    case True
    from Cons.IH[OF ys'(1) True] kx show ?thesis by simp
  next
    case False
    with \<open>xs \<noteq> []\<close> obtain z where z: "xs = [z]"
      by (cases xs; cases "tl xs") auto
    with ys'(1) yr have "y = z" by simp
    with kx ky z show ?thesis by simp
  qed
qed

lemma insort_lt_error: "insort_lt k x ys = Inl e \<Longrightarrow> e = TypeError"
proof (induction ys)
  case Nil
  then show ?case by simp
next
  case (Cons y ys)
  show ?case
  proof (cases "key_lt (k y) (k x)")
    case (Inl e')
    with Cons.prems show ?thesis
      by (cases "k y"; cases "k x") (auto simp: key_lt_def)
  next
    case (Inr b)
    with Cons.prems Cons.IH show ?thesis
      by (cases b; cases "insort_lt k x ys") auto
  qed
qed

lemma py_sorted_error: "py_sorted k xs = Inl e \<Longrightarrow> e = TypeError"
proof (induction xs)
  case Nil
  then show ?case by simp
next
  case (Cons x xs)
  then show ?case
    by (cases "py_sorted k xs") (auto dest: insort_lt_error)
qed

lemma py_sorted_raises:
  assumes "2 \<le> length xs" and "\<exists>x\<in>set xs. k x = None"
  shows "py_sorted k xs = Inl TypeError"
proof (cases "py_sorted k xs")
  case (Inl e)
  with py_sorted_error[of k xs e] show ?thesis by simp
next
  case (Inr ys)
  from py_sorted_keys_present[OF Inr assms(1)] assms(2) show ?thesis by blast
qed

lemma py_sorted_cases:
  assumes "py_sorted k xs = Inr ys"
  shows "(\<forall>x\<in>set xs. k x \<noteq> None) \<and> ys = sort_key (the \<circ> k) xs \<or> length xs \<le> 1 \<and> ys = xs"
proof (cases "2 \<le> length xs")
  case True
  from py_sorted_keys_present[OF assms True] have a: "\<forall>x\<in>set xs. k x \<noteq> None" .
  from py_sorted_sort_key[OF a] assms a show ?thesis by simp
next
  case False
  then have "xs = [] \<or> (\<exists>x. xs = [x])" by (cases xs; cases "tl xs") auto
  with assms False show ?thesis by auto
qed

lemma sorted_wrt_time_le:
  assumes "\<forall>p\<in>set xs. time p \<noteq> None" and "sorted (map (the \<circ> time) xs)"
  shows "sorted_wrt time_le xs"
proof -
  from assms(2) have "sorted_wrt (\<lambda>a b. the (time a) \<le> the (time b)) xs"
    by (simp add: sorted_map)
  moreover have "time_le a b"
    if "a \<in> set xs" "b \<in> set xs" "the (time a) \<le> the (time b)" for a b
  proof -
    from assms(1) that(1,2) have "time a \<noteq> None" "time b \<noteq> None" by blast+
    then obtain u v where "time a = Some u" "time b = Some v" by auto
    with that(3) show ?thesis by (simp add: time_le_def)
  qed
  ultimately show ?thesis
    by (rule sorted_wrt_mono_rel[rotated])
qed

lemma py_sorted_time_props:
  assumes "py_sorted time xs = Inr ys"
  shows "sorted_wrt time_le ys \<and> length ys = length xs \<and>
         (\<forall>t. filter (\<lambda>p. time p = t) ys = filter (\<lambda>p. time p = t) xs)"
proof -
  from py_sorted_cases[OF assms] show ?thesis
  proof
    assume h: "(\<forall>x\<in>set xs. time x \<noteq> None) \<and> ys = sort_key (the \<circ> time) xs"
    then have ys: "ys = sort_key (the \<circ> time) xs" and a: "\<forall>x\<in>set xs. time x \<noteq> None" by auto
    have "sorted (map (the \<circ> time) ys)" unfolding ys by (rule sorted_sort_key)
    moreover have "\<forall>p\<in>set ys. time p \<noteq> None" using a ys by simp
    ultimately have s: "sorted_wrt time_le ys" by (intro sorted_wrt_time_le)
    have st: "filter (\<lambda>p. time p = t) ys = filter (\<lambda>p. time p = t) xs" for t
    proof (cases t)
      case None
      have "filter (\<lambda>p. time p = t) ys = []" "filter (\<lambda>p. time p = t) xs = []"
        using a ys None by (auto simp: filter_empty_conv)
      then show ?thesis by simp
    next
      case (Some v)
      have conv: "filter (\<lambda>p. time p = t) zs = filter (\<lambda>p. (the \<circ> time) p = v) zs"
        if "\<forall>x\<in>set zs. time x \<noteq> None" for zs
        by (rule filter_cong) (use that Some in auto)
      have "filter (\<lambda>p. time p = t) ys = filter (\<lambda>p. (the \<circ> time) p = v) ys"
        using a ys by (intro conv) simp
      also have "\<dots> = filter (\<lambda>p. (the \<circ> time) p = v) xs"
        unfolding ys by (rule sort_key_stable)
      also have "\<dots> = filter (\<lambda>p. time p = t) xs"
        using a by (intro conv[symmetric])
      finally show ?thesis .
    qed
    from s st ys show ?thesis by simp
  next
    assume "length xs \<le> 1 \<and> ys = xs"
    then have "ys = xs" and "length xs \<le> 1" by simp_all
    then have "xs = [] \<or> (\<exists>x. xs = [x])" by (cases xs; cases "tl xs") auto
    with \<open>ys = xs\<close> show ?thesis by auto
  qed
qed

lemma length_total_points:
  "length (total_points g) = (\<Sum>s\<leftarrow>concat (map segments (tracks g)). length (points s))"
  by (simp add: total_points_def length_concat comp_def)

subsection \<open>Claims on the Point Extractor\<close>

text \<open>
  Claim C6: a track without points yields the empty sequence and no error; with every
  timestamp present the extractor returns the stable sort by timestamp of the
  concatenation of all segments' points in traversal order; and whatever it returns is
  sorted non-decreasing by timestamp, has as many points as the segments have together,
  and keeps points of equal timestamp in their traversal order.
\<close>

theorem extract_points_sorted:
  "(total_points g = [] \<longrightarrow> extract_points g = Inr []) \<and>
   ((\<forall>p\<in>set (total_points g). time p \<noteq> None) \<longrightarrow>
      extract_points g = Inr (sort_key (the \<circ> time) (total_points g))) \<and>
   (extract_points g = Inr ys \<longrightarrow>
      sorted_wrt time_le ys \<and>
      length ys = (\<Sum>s\<leftarrow>concat (map segments (tracks g)). length (points s)) \<and>
      (\<forall>t. filter (\<lambda>p. time p = t) ys = filter (\<lambda>p. time p = t) (total_points g)))"
proof (intro conjI impI)
  assume "total_points g = []"
  then show "extract_points g = Inr []" by (simp add: extract_points_def)
next
  assume "\<forall>p\<in>set (total_points g). time p \<noteq> None"
  then show "extract_points g = Inr (sort_key (the \<circ> time) (total_points g))"
    unfolding extract_points_def by (rule py_sorted_sort_key)
next
  assume r: "extract_points g = Inr ys"
  then have p: "py_sorted time (total_points g) = Inr ys" by (simp add: extract_points_def)
  from py_sorted_time_props[OF p] show "sorted_wrt time_le ys" by blast
  from py_sorted_time_props[OF p]
  show "length ys = (\<Sum>s\<leftarrow>concat (map segments (tracks g)). length (points s))"
    by (simp add: length_total_points)
  from py_sorted_time_props[OF p]
  show "\<forall>t. filter (\<lambda>p. time p = t) ys = filter (\<lambda>p. time p = t) (total_points g)" by blast
qed

text \<open>
  Claim C6 at a concrete track: two segments with points at 7 and 3, an empty segment
  and a second track with a point at 3.
\<close>

theorem extract_points_sorted_witness:
  "extract_points
     \<lparr>tracks = [\<lparr>segments = [\<lparr>points = [\<lparr>latitude = 0, longitude = 0, time = Some 7\<rparr>,
                                         \<lparr>latitude = 1, longitude = 1, time = Some 3\<rparr>]\<rparr>,
                             \<lparr>points = []\<rparr>]\<rparr>,
                \<lparr>segments = [\<lparr>points = [\<lparr>latitude = 2, longitude = 2, time = Some 3\<rparr>]\<rparr>]\<rparr>]\<rparr> =
   Inr [\<lparr>latitude = 1, longitude = 1, time = Some 3\<rparr>,
        \<lparr>latitude = 2, longitude = 2, time = Some 3\<rparr>,
        \<lparr>latitude = 0, longitude = 0, time = Some 7\<rparr>] \<and>
   sorted_wrt time_le [\<lparr>latitude = 1, longitude = 1, time = Some 3\<rparr>,
        \<lparr>latitude = 2, longitude = 2, time = Some 3\<rparr>,
        \<lparr>latitude = 0, longitude = 0, time = Some 7\<rparr>] \<and>
   length [\<lparr>latitude = 1, longitude = 1, time = Some 3\<rparr>,
        \<lparr>latitude = 2, longitude = 2, time = Some (3::int)\<rparr>,
        \<lparr>latitude = 0, longitude = 0, time = Some 7\<rparr>] = 2 + 0 + 1"
proof -
  have run: "extract_points
     \<lparr>tracks = [\<lparr>segments = [\<lparr>points = [\<lparr>latitude = 0, longitude = 0, time = Some 7\<rparr>,
                                         \<lparr>latitude = 1, longitude = 1, time = Some 3\<rparr>]\<rparr>,
                             \<lparr>points = []\<rparr>]\<rparr>,
                \<lparr>segments = [\<lparr>points = [\<lparr>latitude = 2, longitude = 2, time = Some 3\<rparr>]\<rparr>]\<rparr>]\<rparr> =
   Inr [\<lparr>latitude = 1, longitude = 1, time = Some 3\<rparr>,
        \<lparr>latitude = 2, longitude = 2, time = Some 3\<rparr>,
        \<lparr>latitude = 0, longitude = 0, time = Some 7\<rparr>]"
    by (simp add: extract_points_def total_points_def key_lt_def)
  from extract_points_sorted[of
     "\<lparr>tracks = [\<lparr>segments = [\<lparr>points = [\<lparr>latitude = 0, longitude = 0, time = Some 7\<rparr>,
                                         \<lparr>latitude = 1, longitude = 1, time = Some 3\<rparr>]\<rparr>,
                             \<lparr>points = []\<rparr>]\<rparr>,
                \<lparr>segments = [\<lparr>points = [\<lparr>latitude = 2, longitude = 2, time = Some 3\<rparr>]\<rparr>]\<rparr>]\<rparr>"
     "[\<lparr>latitude = 1, longitude = 1, time = Some 3\<rparr>,
        \<lparr>latitude = 2, longitude = 2, time = Some 3\<rparr>,
        \<lparr>latitude = 0, longitude = 0, time = Some 7\<rparr>]"] run
  show ?thesis by simp
qed

text \<open>
  Claim C9, as stated, fails on a track whose only point has no timestamp: sorting a
  single element compares nothing, and the extractor returns the point.
\<close>

theorem extract_points_single_untimed:
  "time \<lparr>latitude = 0, longitude = 0, time = None\<rparr> = None \<and>
   extract_points
     \<lparr>tracks = [\<lparr>segments = [\<lparr>points = [\<lparr>latitude = 0, longitude = 0, time = None\<rparr>]\<rparr>]\<rparr>]\<rparr> =
   Inr [\<lparr>latitude = 0, longitude = 0, time = None\<rparr>]"
  by (simp add: extract_points_def total_points_def)

text \<open>
  Claim C9, amended: for every track structure with at least two points in total in
  which some point lacks a timestamp, the extractor raises (a \<open>TypeError\<close>) and
  returns no sequence.
\<close>

theorem extract_points_missing_timestamp:
  assumes "2 \<le> length (total_points g)" and "\<exists>p\<in>set (total_points g). time p = None"
  shows "extract_points g = Inl TypeError"
  unfolding extract_points_def using assms by (rule py_sorted_raises)

text \<open>
  Claim C9, amended, at a concrete track: two segments of one point each, the second
  point without a timestamp.
\<close>

theorem extract_points_missing_timestamp_witness:
  "2 \<le> length (total_points
     \<lparr>tracks = [\<lparr>segments = [\<lparr>points = [\<lparr>latitude = 0, longitude = 0, time = Some 7\<rparr>]\<rparr>,
                             \<lparr>points = [\<lparr>latitude = 1, longitude = 1, time = None\<rparr>]\<rparr>]\<rparr>]\<rparr>) \<and>
   extract_points
     \<lparr>tracks = [\<lparr>segments = [\<lparr>points = [\<lparr>latitude = 0, longitude = 0, time = Some 7\<rparr>]\<rparr>,
                             \<lparr>points = [\<lparr>latitude = 1, longitude = 1, time = None\<rparr>]\<rparr>]\<rparr>]\<rparr> =
   Inl TypeError"
proof -
  have a: "2 \<le> length (total_points
     \<lparr>tracks = [\<lparr>segments = [\<lparr>points = [\<lparr>latitude = 0, longitude = 0, time = Some 7\<rparr>]\<rparr>,
                             \<lparr>points = [\<lparr>latitude = 1, longitude = 1, time = None\<rparr>]\<rparr>]\<rparr>]\<rparr>)"
    by (simp add: total_points_def)
  have b: "\<exists>p\<in>set (total_points
     \<lparr>tracks = [\<lparr>segments = [\<lparr>points = [\<lparr>latitude = 0, longitude = 0, time = Some 7\<rparr>]\<rparr>,
                             \<lparr>points = [\<lparr>latitude = 1, longitude = 1, time = None\<rparr>]\<rparr>]\<rparr>]\<rparr>).
            time p = None"
    by (simp add: total_points_def)
  from a extract_points_missing_timestamp[OF a b] show ?thesis by simp
qed

section \<open>Geocode Deduplicator: properties\<close>

subsection \<open>First occurrences\<close>

lemma first_occurrences_snoc:
  "first_occurrences (xs @ [x]) =
     (if x \<in> set xs then first_occurrences xs else first_occurrences xs @ [x])"
  by (simp add: first_occurrences_def)

lemma first_occurrences_distinct: "distinct xs \<Longrightarrow> first_occurrences xs = xs"
  by (simp add: first_occurrences_def distinct_remdups_id)

lemma distinct_first_occurrences: "distinct (first_occurrences xs)"
  by (simp add: first_occurrences_def)

lemma remdups_drop_later: "x \<in> set bs \<Longrightarrow> remdups (as @ x # bs) = remdups (as @ bs)"
  by (induction as) auto

lemma first_occurrences_seen:
  "x \<in> set ts \<Longrightarrow> first_occurrences (ts @ x # ys) = first_occurrences (ts @ ys)"
  by (simp add: first_occurrences_def remdups_drop_later)

subsection \<open>The loop\<close>

lemma lookup_keys_Cons:
  "lookup_keys gmaps (point # rest) =
     (case gmaps (latitude point, longitude point) of
        Inr (candidate # _) \<Rightarrow> [address_tuple (parse_address candidate)]
      | _ \<Rightarrow> []) @ lookup_keys gmaps rest"
  by (simp add: lookup_keys_def)

text \<open>
  The invariant of the loop: \<open>seen_addresses\<close> holds exactly the keys of
  \<open>parsed_points\<close>, which are pairwise different.
\<close>

lemma geocode_loop_keys:
  assumes "geocode_loop gmaps pts parsed seen lg = (Inr parsed', lg')"
    and "seen = set (map address_tuple parsed)" and "distinct (map address_tuple parsed)"
  shows "map address_tuple parsed' =
           first_occurrences (map address_tuple parsed @ lookup_keys gmaps pts)"
  using assms
proof (induction pts arbitrary: parsed seen lg)
  case Nil
  then show ?case by (simp add: lookup_keys_def first_occurrences_distinct)
next
  case (Cons point rest)
  show ?case
  proof (cases "gmaps (latitude point, longitude point)")
    case (Inl e)
    with Cons.prems(1) show ?thesis by simp
  next
    case (Inr cands)
    show ?thesis
    proof (cases cands)
      case Nil
      with Inr Cons.prems have
        "geocode_loop gmaps rest parsed seen
           (lg @ [(WARNING, ''No geocode result found for point'')]) = (Inr parsed', lg')"
        by simp
      from Cons.IH[OF this Cons.prems(2,3)] Inr Nil show ?thesis
        by (simp add: lookup_keys_Cons)
    next
      case (Cons candidate others)
      let ?a = "parse_address candidate"
      let ?t = "address_tuple ?a"
      have lk: "lookup_keys gmaps (point # rest) = ?t # lookup_keys gmaps rest"
        using Inr Cons by (simp add: lookup_keys_Cons)
      show ?thesis
      proof (cases "?t \<in> seen")
        case True
        with Inr Cons Cons.prems(1) have
          "geocode_loop gmaps rest parsed seen lg = (Inr parsed', lg')" by simp
        from Cons.IH[OF this Cons.prems(2,3)] True Cons.prems(2) show ?thesis
          by (simp add: lk first_occurrences_seen)
      next
        case False
        with Inr Cons Cons.prems(1) have run:
          "geocode_loop gmaps rest (parsed @ [?a]) (insert ?t seen) lg = (Inr parsed', lg')"
          by simp
        have "insert ?t seen = set (map address_tuple (parsed @ [?a]))"
          using Cons.prems(2) by simp
        moreover have "distinct (map address_tuple (parsed @ [?a]))"
          using Cons.prems(2,3) False by simp
        ultimately have "map address_tuple parsed' =
           first_occurrences (map address_tuple (parsed @ [?a]) @ lookup_keys gmaps rest)"
          by (rule Cons.IH[OF run])
        then show ?thesis by (simp add: lk)
      qed
    qed
  qed
qed

lemma geocode_loop_total:
  "\<forall>p\<in>set pts. \<exists>r. gmaps (latitude p, longitude p) = Inr r \<Longrightarrow>
   \<exists>parsed' lg'. geocode_loop gmaps pts parsed seen lg = (Inr parsed', lg')"
proof (induction pts arbitrary: parsed seen lg)
  case Nil
  then show ?case by simp
next
  case (Cons point rest)
  then obtain r where r: "gmaps (latitude point, longitude point) = Inr r" by auto
  from Cons have "\<And>parsed seen lg. \<exists>parsed' lg'.
      geocode_loop gmaps rest parsed seen lg = (Inr parsed', lg')" by simp
  then show ?case using r by (cases r) simp_all
qed

lemma geocode_loop_log:
  "geocode_loop gmaps pts parsed seen lg = (r, lg') \<Longrightarrow>
   set lg' \<subseteq> set lg \<union> {(WARNING, ''No geocode result found for point'')}"
proof (induction pts arbitrary: parsed seen lg)
  case Nil
  then show ?case by auto
next
  case (Cons point rest)
  show ?case
  proof (cases "gmaps (latitude point, longitude point)")
    case (Inl e)
    with Cons.prems show ?thesis by auto
  next
    case (Inr cands)
    show ?thesis
    proof (cases cands)
      case Nil
      with Inr Cons.prems Cons.IH[of parsed seen
          "lg @ [(WARNING, ''No geocode result found for point'')]"]
      show ?thesis by auto
    next
      case (Cons candidate others)
      with Inr Cons.prems
        Cons.IH[of "parsed @ [parse_address candidate]"
          "insert (address_tuple (parse_address candidate)) seen" lg]
        Cons.IH[of parsed seen lg]
      show ?thesis by (auto split: if_splits)
    qed
  qed
qed

lemma reverseGeocode_Inr:
  assumes "fst (reverseGeocode gmaps pts) = Inr (parsed, flag)"
  obtains lg where
    "geocode_loop gmaps pts [] {} [(INFO, ''Starting reverse geocoding...'')] = (Inr parsed, lg)"
    "reverseGeocode gmaps pts = (Inr (parsed, flag), lg)" "flag = (parsed = [])"
proof -
  obtain r lg where rl:
    "geocode_loop gmaps pts [] {} [(INFO, ''Starting reverse geocoding...'')] = (r, lg)"
    by (cases "geocode_loop gmaps pts [] {} [(INFO, ''Starting reverse geocoding...'')]")
  with assms show thesis
    by (cases r) (auto simp: reverseGeocode_def intro: that)
qed

subsection \<open>The concrete run, stage by stage\<close>

lemma parse_example: "parse_address example_candidate = example_address"
  by (simp add: parse_address_def example_candidate_def example_address_def
      parse_component_def newParsedAddr_def)

lemma extract_example:
  "extract_points example_gpx =
     Inr [\<lparr>latitude = 1, longitude = 1, time = Some 0\<rparr>,
          \<lparr>latitude = 0, longitude = 0, time = Some 100000000\<rparr>,
          \<lparr>latitude = 2, longitude = 2, time = Some 400000000\<rparr>]"
  by (simp add: extract_points_def total_points_def example_gpx_def key_lt_def)

lemma select_example:
  "select_points [\<lparr>latitude = 1, longitude = 1, time = Some 0\<rparr>,
          \<lparr>latitude = 0, longitude = 0, time = Some 100000000\<rparr>,
          \<lparr>latitude = 2, longitude = 2, time = Some 400000000\<rparr>] point_interval_minutes =
     Inr [\<lparr>latitude = 1, longitude = 1, time = Some 0\<rparr>,
          \<lparr>latitude = 2, longitude = 2, time = Some 400000000\<rparr>]"
  by (simp add: select_points_def point_interval_minutes_def time_sub_def td_seconds_def)

lemma geocode_example:
  "reverseGeocode example_gmaps
     [\<lparr>latitude = 1, longitude = 1, time = Some 0\<rparr>,
      \<lparr>latitude = 2, longitude = 2, time = Some 400000000\<rparr>] =
   (Inr ([example_address], False), [(INFO, ''Starting reverse geocoding...'')])"
  by (simp add: reverseGeocode_def example_gmaps_def parse_example)

lemma geocode_example3:
  "reverseGeocode example_gmaps
     [\<lparr>latitude = 1, longitude = 1, time = Some 0\<rparr>,
      \<lparr>latitude = 0, longitude = 0, time = Some 100000000\<rparr>,
      \<lparr>latitude = 2, longitude = 2, time = Some 400000000\<rparr>] =
   (Inr ([example_address], False),
    [(INFO, ''Starting reverse geocoding...''), (WARNING, ''No geocode result found for point'')])"
  by (simp add: reverseGeocode_def example_gmaps_def parse_example)

subsection \<open>Claims on the Geocode Deduplicator, the save step and the entry point\<close>

text \<open>
  Claim C7: when every lookup answers, \<open>reverseGeocode\<close> returns; and the list it
  returns has no two elements with the same five fields, in the order of first
  occurrence: its keys are the keys the lookups yield, each kept where it occurs first.
\<close>

theorem reverseGeocode_dedup:
  "((\<forall>p\<in>set pts. \<exists>r. gmaps (latitude p, longitude p) = Inr r) \<longrightarrow>
      (\<exists>parsed flag. fst (reverseGeocode gmaps pts) = Inr (parsed, flag))) \<and>
   (fst (reverseGeocode gmaps pts) = Inr (parsed, flag) \<longrightarrow>
      distinct (map address_tuple parsed) \<and> distinct parsed \<and>
      map address_tuple parsed = first_occurrences (lookup_keys gmaps pts))"
proof (intro conjI impI)
  assume "\<forall>p\<in>set pts. \<exists>r. gmaps (latitude p, longitude p) = Inr r"
  from geocode_loop_total[OF this, of "[]" "{}" "[(INFO, ''Starting reverse geocoding...'')]"]
  show "\<exists>parsed flag. fst (reverseGeocode gmaps pts) = Inr (parsed, flag)"
    by (auto simp: reverseGeocode_def)
next
  assume "fst (reverseGeocode gmaps pts) = Inr (parsed, flag)"
  then obtain lg where run:
    "geocode_loop gmaps pts [] {} [(INFO, ''Starting reverse geocoding...'')] = (Inr parsed, lg)"
    by (rule reverseGeocode_Inr)
  from geocode_loop_keys[OF run]
  show keys: "map address_tuple parsed = first_occurrences (lookup_keys gmaps pts)" by simp
  then show d: "distinct (map address_tuple parsed)"
    by (simp add: distinct_first_occurrences)
  then show "distinct parsed" by (simp add: distinct_map)
qed

text \<open>
  Claim C7 at a concrete input: three points, the second without a candidate, the first
  and third with the same address.
\<close>

theorem reverseGeocode_dedup_witness:
  "fst (reverseGeocode example_gmaps
     [\<lparr>latitude = 1, longitude = 1, time = Some 0\<rparr>,
      \<lparr>latitude = 0, longitude = 0, time = Some 100000000\<rparr>,
      \<lparr>latitude = 2, longitude = 2, time = Some 400000000\<rparr>]) = Inr ([example_address], False) \<and>
   distinct (map address_tuple [example_address]) \<and>
   map address_tuple [example_address] =
     first_occurrences (lookup_keys example_gmaps
       [\<lparr>latitude = 1, longitude = 1, time = Some 0\<rparr>,
        \<lparr>latitude = 0, longitude = 0, time = Some 100000000\<rparr>,
        \<lparr>latitude = 2, longitude = 2, time = Some 400000000\<rparr>])"
proof -
  have lk: "first_occurrences (lookup_keys example_gmaps
       [\<lparr>latitude = 1, longitude = 1, time = Some 0\<rparr>,
        \<lparr>latitude = 0, longitude = 0, time = Some 100000000\<rparr>,
        \<lparr>latitude = 2, longitude = 2, time = Some 400000000\<rparr>]) =
     [address_tuple example_address]"
    by (simp add: lookup_keys_def first_occurrences_def example_gmaps_def parse_example)
  from reverseGeocode_dedup[of
     "[\<lparr>latitude = 1, longitude = 1, time = Some 0\<rparr>,
      \<lparr>latitude = 0, longitude = 0, time = Some 100000000\<rparr>,
      \<lparr>latitude = 2, longitude = 2, time = Some 400000000\<rparr>]" example_gmaps
     "[example_address]" False]
  show ?thesis by (simp add: geocode_example3 lk)
qed

text \<open>
  Claim C1 says that the document written is the array of the address records. The code
  hands the whole return value of \<open>reverseGeocode\<close>, the pair of the list and the
  emptiness flag, to the save step. On the concrete run the document is a two-element
  array, the array of records followed by \<open>false\<close>, and not the array of records.
\<close>

theorem main_serialises_pair:
  "snd (main (Inr example_gpx) example_gmaps example_fs) =
     Some (JArray
       [JArray [JObject [(''country'', JString ''Japan''),
                         (''administrative_area_level_1'', JString ''Tokyo''),
                         (''administrative_area_level_2'', JString []),
                         (''locality'', JString ''Shibuya''),
                         (''sublocality'', JString [])]],
        JBool False]) \<and>
   snd (main (Inr example_gpx) example_gmaps example_fs) \<noteq>
     Some (json_dumps (py_of_parsed_points [example_address]))"
  by (simp add: main_def load_gpx_file_def extract_example select_example geocode_example
      save_reversed_geocode_results_json_def py_of_result_def py_of_parsed_points_def
      py_of_address_def example_address_def example_fs_def)

text \<open>
  What the save step does when the writing raises: it returns normally, its log holds
  the error line and nothing but that line and possibly the success line before it, and
  no document is left.
\<close>

lemma save_raises:
  assumes "output_write_raises fs (json_dumps v)"
  obtains l3 where "save_reversed_geocode_results_json fs v = (Inr (), l3, None)"
    and "(ERROR, ''Failed to save reversed geocode results'') \<in> set l3"
    and "set l3 \<subseteq> {(INFO, ''Successfully saved reversed geocode results''),
                     (ERROR, ''Failed to save reversed geocode results'')}"
proof (cases "fs_open fs")
  case (Inl e)
  then show thesis
    by (intro that[of "[(ERROR, ''Failed to save reversed geocode results'')]"])
       (simp_all add: save_reversed_geocode_results_json_def)
next
  case op: (Inr u)
  show thesis
  proof (cases "fs_write fs (json_dumps v)")
    case (Inl e)
    with op show thesis
      by (intro that[of "[(ERROR, ''Failed to save reversed geocode results'')]"])
         (simp_all add: save_reversed_geocode_results_json_def)
  next
    case wr: (Inr u')
    from assms op wr obtain e where "fs_close fs = Inl e"
      by (cases "fs_close fs") (auto simp: output_write_raises_def)
    with op wr show thesis
      by (intro that[of "[(INFO, ''Successfully saved reversed geocode results''),
                          (ERROR, ''Failed to save reversed geocode results'')]"])
         (simp_all add: save_reversed_geocode_results_json_def)
  qed
qed

text \<open>
  Claim C8: if writing the output file raises (at the opening, at the writing or at the
  closing), the save step logs the error and returns normally, and \<open>main\<close> goes on to
  log the successful completion; it logs no failure of its own and leaves no document.
\<close>

theorem save_error_swallowed:
  assumes "extract_points g = Inr sp"
    and "select_points sp point_interval_minutes = Inr pp"
    and "fst (reverseGeocode gmaps pp) = Inr r"
    and "output_write_raises fs (json_dumps (py_of_result r))"
  shows "fst (save_reversed_geocode_results_json fs (py_of_result r)) = Inr () \<and>
         (ERROR, ''Failed to save reversed geocode results'') \<in>
           set (fst (snd (save_reversed_geocode_results_json fs (py_of_result r)))) \<and>
         (ERROR, ''Failed to save reversed geocode results'') \<in> set (fst (main (Inr g) gmaps fs)) \<and>
         last (fst (main (Inr g) gmaps fs)) =
           (INFO, ''Reversed geocoding completed successfully.'') \<and>
         (ERROR, ''Main function failed'') \<notin> set (fst (main (Inr g) gmaps fs)) \<and>
         snd (main (Inr g) gmaps fs) = None"
proof -
  obtain parsed flag where r: "r = (parsed, flag)" by (cases r)
  from assms(3) r obtain lg where
    run: "geocode_loop gmaps pp [] {} [(INFO, ''Starting reverse geocoding...'')] = (Inr parsed, lg)"
    and rg: "reverseGeocode gmaps pp = (Inr (parsed, flag), lg)"
    by (auto elim: reverseGeocode_Inr)
  from geocode_loop_log[OF run]
  have lg: "(ERROR, ''Main function failed'') \<notin> set lg" by auto
  from assms(4) obtain l3 where
    sv: "save_reversed_geocode_results_json fs (py_of_result r) = (Inr (), l3, None)"
    and err: "(ERROR, ''Failed to save reversed geocode results'') \<in> set l3"
    and sub: "set l3 \<subseteq> {(INFO, ''Successfully saved reversed geocode results''),
                        (ERROR, ''Failed to save reversed geocode results'')}"
    by (rule save_raises)
  from sub have l3: "(ERROR, ''Main function failed'') \<notin> set l3" by auto
  have m: "main (Inr g) gmaps fs =
     ([(INFO, ''Total Points'')]
        @ (if sp = [] then [(WARNING, ''No points to select from'')] else [])
        @ [(INFO, ''Total selected points''), (INFO, ''Processing Points'')]
        @ lg @ l3 @ [(INFO, ''Reversed geocoding completed successfully.'')], None)"
    using assms(1,2) rg sv r by (simp add: main_def load_gpx_file_def)
  show ?thesis
    using sv lg l3 err by (simp add: m)
qed

text \<open>
  Claim C8 on the concrete run, with the full disk: the flush at the closing fails after
  the success line is logged, so the save step logs both lines and returns.
\<close>

theorem save_error_swallowed_witness:
  "save_reversed_geocode_results_json full_disk_fs (py_of_result ([example_address], False)) =
     (Inr (),
      [(INFO, ''Successfully saved reversed geocode results''),
       (ERROR, ''Failed to save reversed geocode results'')],
      None) \<and>
   (ERROR, ''Failed to save reversed geocode results'') \<in>
     set (fst (main (Inr example_gpx) example_gmaps full_disk_fs)) \<and>
   last (fst (main (Inr example_gpx) example_gmaps full_disk_fs)) =
     (INFO, ''Reversed geocoding completed successfully.'') \<and>
   (ERROR, ''Main function failed'') \<notin>
     set (fst (main (Inr example_gpx) example_gmaps full_disk_fs)) \<and>
   snd (main (Inr example_gpx) example_gmaps full_disk_fs) = None"
proof -
  have raises: "output_write_raises full_disk_fs
      (json_dumps (py_of_result ([example_address], False)))"
    by (simp add: output_write_raises_def full_disk_fs_def)
  have rg: "fst (reverseGeocode example_gmaps
     [\<lparr>latitude = 1, longitude = 1, time = Some 0\<rparr>,
      \<lparr>latitude = 2, longitude = 2, time = Some 400000000\<rparr>]) = Inr ([example_address], False)"
    by (simp add: geocode_example)
  have sv: "save_reversed_geocode_results_json full_disk_fs
       (py_of_result ([example_address], False)) =
     (Inr (),
      [(INFO, ''Successfully saved reversed geocode results''),
       (ERROR, ''Failed to save reversed geocode results'')],
      None)"
    by (simp add: save_reversed_geocode_results_json_def full_disk_fs_def)
  from save_error_swallowed[OF extract_example select_example rg raises] sv
  show ?thesis by simp
qed

end
